theory Spec2Isabelle
  imports Main "HOL-Library.AList"
begin

section \<open>Bowl: the HTML tree and its lazily built indexes (src/lib/bowl.py)\<close>

subsection \<open>Data model\<close>

text \<open>
  Python objects have identity and are mutated in place: the tree builder keeps the open
  elements on a stack and appends to the top one while it is already a child of the
  element below, and the indexes hold references to nodes, not copies. The model is
  therefore an explicit store: a reference is an address, the heap maps every address to
  the \<open>DOMNode\<close> object stored there, and a child is either a reference to a node or a
  text string.

  Exceptions are values of \<open>py_error\<close>; a function that can raise returns
  \<open>py_error + 'a\<close>. What is left of a mutated object after an exception is not modelled.
\<close>

type_synonym ref = nat

datatype py_error = NameError | IndexError | AssertionError | RecursionError | TypeError

text \<open>
  \<open>attrs: Dict[str, Any]\<close>. The code distinguishes a \<open>str\<close>, a \<open>list\<close> and anything
  else, and of anything else it uses only the truth value, \<open>str()\<close> and, as a
  dictionary key, whether the object can be hashed; \<open>VOther b k s\<close> is such an object
  with truth value \<open>b\<close>, hashable if \<open>k\<close>, and \<open>str()\<close> result \<open>s\<close>. \<open>None\<close> is one of
  them; a \<open>dict\<close> or a \<open>set\<close> is one that cannot be hashed. A \<open>str\<close> can be hashed, a
  \<open>list\<close> cannot.
\<close>

datatype attr_value = VStr string | VList "string list" | VOther bool bool string

definition VNone :: attr_value where
  "VNone = VOther False True ''None''"

fun hashable :: "attr_value \<Rightarrow> bool" where
  "hashable (VStr s) = True"
| "hashable (VList l) = False"
| "hashable (VOther b k s) = k"

fun truthy :: "attr_value \<Rightarrow> bool" where
  "truthy (VStr s) = (s \<noteq> [])"
| "truthy (VList l) = (l \<noteq> [])"
| "truthy (VOther b k s) = b"

datatype child = Node ref | Text string

record DOMNode =
  tag :: string
  attrs :: "(string \<times> attr_value) list"
  children :: "child list"
  has_id_index :: bool
  id_to_node_map :: "attr_value \<rightharpoonup> ref"
  has_tag_index :: bool
  tag_to_node_map :: "string \<rightharpoonup> ref list"
  has_class_index :: bool
  class_to_node_map :: "string \<rightharpoonup> ref list"

type_synonym heap = "ref \<Rightarrow> DOMNode"

text \<open>\<open>DOMNode.__init__(tag, attrs, children=None)\<close>: \<open>children or []\<close>, empty indexes.\<close>

definition new_DOMNode :: "string \<Rightarrow> (string \<times> attr_value) list \<Rightarrow> child list \<Rightarrow> DOMNode" where
  "new_DOMNode t a cs =
     \<lparr>tag = t, attrs = a, children = cs,
      has_id_index = False, id_to_node_map = Map.empty,
      has_tag_index = False, tag_to_node_map = Map.empty,
      has_class_index = False, class_to_node_map = Map.empty\<rparr>"

text \<open>\<open>append_child\<close>: \<open>self.children.append(child)\<close>.\<close>

definition append_child :: "heap \<Rightarrow> ref \<Rightarrow> child \<Rightarrow> heap" where
  "append_child h self c = h(self := (h self)\<lparr>children := children (h self) @ [c]\<rparr>)"

subsection \<open>The tag index\<close>

text \<open>
  \<open>_build_tag_index(self, node)\<close> recurses over the children of \<open>node\<close>. The first
  argument is the number of call frames the interpreter still allows: at 0 the call
  raises \<open>RecursionError\<close>. The traversal reads only \<open>tag\<close> and \<open>children\<close> and writes
  only the owner's map and flag, so these two are passed along as the pair \<open>(map, flag)\<close>
  and stored into the owner by \<open>get_by_tag\<close>. The argument \<open>self\<close> is the reference the
  final test \<open>node is self\<close> compares with (\<open>self.root\<close> in \<open>DOMDocument\<close>, whose three
  builders are otherwise the same text).
\<close>




subsection \<open>The id index\<close>

text \<open>
  \<open>id_attr = node.attrs.get("id")\<close>, and under \<open>if id_attr:\<close> the store
  \<open>self._id_to_node_map[id_attr] = node\<close>. A dictionary key must be hashable: for one
  that is not, the store raises \<open>TypeError\<close>.
\<close>

definition id_store :: "(attr_value \<rightharpoonup> ref) \<Rightarrow> DOMNode \<Rightarrow> ref \<Rightarrow> py_error + (attr_value \<rightharpoonup> ref)" where
  "id_store m n node =
     (case map_of (attrs n) ''id'' of
        None \<Rightarrow> Inr m
      | Some id_attr \<Rightarrow>
          if truthy id_attr then
            (if hashable id_attr then Inr (m(id_attr \<mapsto> node)) else Inl TypeError)
          else Inr m)"

fun build_id_index ::
    "nat \<Rightarrow> heap \<Rightarrow> ref \<Rightarrow> ref \<Rightarrow> (attr_value \<rightharpoonup> ref) \<times> bool
       \<Rightarrow> py_error + ((attr_value \<rightharpoonup> ref) \<times> bool)"
  and build_id_children ::
    "nat \<Rightarrow> heap \<Rightarrow> ref \<Rightarrow> child list \<Rightarrow> (attr_value \<rightharpoonup> ref) \<times> bool
       \<Rightarrow> py_error + ((attr_value \<rightharpoonup> ref) \<times> bool)"
where
  "build_id_index 0 h self node c = Inl RecursionError"
| "build_id_index (Suc d) h self node c =
     (case id_store (fst c) (h node) node of
        Inl e \<Rightarrow> Inl e
      | Inr m \<Rightarrow>
          (case build_id_children d h self (children (h node)) (m, snd c) of
             Inl e \<Rightarrow> Inl e
           | Inr c' \<Rightarrow> Inr (if node = self then (fst c', True) else c')))"
| "build_id_children d h self [] c = Inr c"
| "build_id_children d h self (Text s # cs) c = build_id_children d h self cs c"
| "build_id_children d h self (Node r # cs) c =
     (case build_id_index d h self r c of
        Inl e \<Rightarrow> Inl e
      | Inr c' \<Rightarrow> build_id_children d h self cs c')"

definition get_by_id :: "nat \<Rightarrow> heap \<Rightarrow> ref \<Rightarrow> string \<Rightarrow> py_error + (heap \<times> ref option)" where
  "get_by_id d h self name =
     (if \<not> has_id_index (h self) then
        (case build_id_index d h self self (id_to_node_map (h self), has_id_index (h self)) of
           Inl e \<Rightarrow> Inl e
         | Inr c \<Rightarrow>
             Inr (h(self := (h self)\<lparr>id_to_node_map := fst c, has_id_index := snd c\<rparr>),
                  fst c (VStr name)))
      else Inr (h, id_to_node_map (h self) (VStr name)))"

subsection \<open>The class index\<close>

text \<open>
  \<open>str.split()\<close> with no argument: the maximal runs of non-whitespace characters. A
  character is a code point below 256; of these Python counts as whitespace 9 to 13, 28
  to 32, 133 and 160.
\<close>

definition py_isspace :: "char \<Rightarrow> bool" where
  "py_isspace c = (of_char c \<in> {9, 10, 11, 12, 13, 28, 29, 30, 31, 32, 133, 160 :: nat})"

fun split_from :: "string \<Rightarrow> string \<Rightarrow> string list" where
  "split_from cur [] = (if cur = [] then [] else [cur])"
| "split_from cur (c # cs) =
     (if py_isspace c then (if cur = [] then split_from [] cs else cur # split_from [] cs)
      else split_from (cur @ [c]) cs)"

definition split :: "string \<Rightarrow> string list" where
  "split s = split_from [] s"





subsection \<open>Rendering\<close>

text \<open>
  \<open>_render(self, indent)\<close>. An f-string field is \<open>str()\<close> of its value; for a list that is
  the interpreter's list formatting, the parameter \<open>list_str\<close>. The first argument of
  \<open>render\<close> after it is the number of call frames left, as for the index builders.
\<close>

fun join :: "string \<Rightarrow> string list \<Rightarrow> string" where
  "join sep [] = []"
| "join sep [x] = x"
| "join sep (x # y # ys) = x @ sep @ join sep (y # ys)"

fun value_str :: "(string list \<Rightarrow> string) \<Rightarrow> attr_value \<Rightarrow> string" where
  "value_str list_str (VStr s) = s"
| "value_str list_str (VList l) = list_str l"
| "value_str list_str (VOther b k s) = s"

fun render :: "(string list \<Rightarrow> string) \<Rightarrow> nat \<Rightarrow> heap \<Rightarrow> ref \<Rightarrow> nat \<Rightarrow> py_error + string"
  and render_children ::
    "(string list \<Rightarrow> string) \<Rightarrow> nat \<Rightarrow> heap \<Rightarrow> child list \<Rightarrow> nat \<Rightarrow> py_error + string list"
where
  "render list_str 0 h self indent = Inl RecursionError"
| "render list_str (Suc d) h self indent =
     (let space = concat (replicate indent ''  '');
          attrs_text = join '' ''
            (map (\<lambda>(key, v). key @ ''='' @ [CHR 0x22] @ value_str list_str v @ [CHR 0x22])
               (attrs (h self)));
          open_tag = ''<'' @ tag (h self) @ (if attrs_text \<noteq> [] then '' '' @ attrs_text else [])
                       @ ''>'';
          close_tag = ''</'' @ tag (h self) @ ''>''
      in case render_children list_str d h (children (h self)) indent of
           Inl e \<Rightarrow> Inl e
         | Inr parts \<Rightarrow> Inr (join [CHR 0x0A] ([space @ open_tag] @ parts @ [space @ close_tag])))"
| "render_children list_str d h [] indent = Inr []"
| "render_children list_str d h (Node r # cs) indent =
     (case render list_str d h r (indent + 1) of
        Inl e \<Rightarrow> Inl e
      | Inr part \<Rightarrow>
          (case render_children list_str d h cs indent of
             Inl e \<Rightarrow> Inl e
           | Inr parts \<Rightarrow> Inr (part # parts)))"
| "render_children list_str d h (Text s # cs) indent =
     (case render_children list_str d h cs indent of
        Inl e \<Rightarrow> Inl e
      | Inr parts \<Rightarrow> Inr ((concat (replicate (indent + 1) ''  '') @ s) # parts))"

subsection \<open>DOMDocument\<close>

text \<open>
  The document holds a reference to its root and its own three indexes. Its builders are
  those of \<open>DOMNode\<close> with the final test \<open>node is self.root\<close>, and its queries store
  the index into the document, not into a node.
\<close>

record DOMDocument =
  root :: ref
  page_title :: "string option"
  doc_has_id_index :: bool
  doc_id_to_node_map :: "attr_value \<rightharpoonup> ref"
  doc_has_tag_index :: bool
  doc_tag_to_node_map :: "string \<rightharpoonup> ref list"
  doc_has_class_index :: bool
  doc_class_to_node_map :: "string \<rightharpoonup> ref list"

definition new_DOMDocument :: "ref \<Rightarrow> string option \<Rightarrow> DOMDocument" where
  "new_DOMDocument r t =
     \<lparr>root = r, page_title = t,
      doc_has_id_index = False, doc_id_to_node_map = Map.empty,
      doc_has_tag_index = False, doc_tag_to_node_map = Map.empty,
      doc_has_class_index = False, doc_class_to_node_map = Map.empty\<rparr>"


definition doc_get_by_id ::
    "nat \<Rightarrow> heap \<Rightarrow> DOMDocument \<Rightarrow> string \<Rightarrow> py_error + (DOMDocument \<times> ref option)" where
  "doc_get_by_id d h doc name =
     (if \<not> doc_has_id_index doc then
        (case build_id_index d h (root doc) (root doc)
                (doc_id_to_node_map doc, doc_has_id_index doc) of
           Inl e \<Rightarrow> Inl e
         | Inr c \<Rightarrow>
             Inr (doc\<lparr>doc_id_to_node_map := fst c, doc_has_id_index := snd c\<rparr>,
                  fst c (VStr name)))
      else Inr (doc, doc_id_to_node_map doc (VStr name)))"


subsection \<open>The tree builder\<close>

text \<open>
  \<open>_CustomHTMLParser\<close> subclasses the standard library's \<open>HTMLParser\<close>, whose \<open>feed\<close>
  scans the text and calls the handlers in document order. The scanner is not part of
  this repository: it is the parameter \<open>tokenize\<close>, and an \<open>event\<close> is one handler call
  (\<open><br/>\<close> arrives as a start tag followed by an end tag). An attribute value is
  \<open>None\<close> when the attribute has no value.

  A global name is looked up in the module's namespace when the statement runs; \<open>g\<close> is
  that namespace, restricted to the names bound to sets of strings, and \<open>bowl_globals\<close>
  is the one of \<open>bowl.py\<close>, which binds \<open>_VOID_TAGS\<close>.
\<close>

datatype event =
    StartTag string "(string \<times> string option) list"
  | EndTag string
  | Data string
  | Comment string
  | EntityRef string
  | CharRef string
  | Decl string

definition bowl_globals :: "string \<rightharpoonup> string set" where
  "bowl_globals =
     [''_VOID_TAGS'' \<mapsto>
        {''area'', ''base'', ''br'', ''col'', ''embed'', ''hr'', ''img'',
         ''input'', ''link'', ''meta'', ''source'', ''track'', ''wbr''}]"

record parser =
  store :: heap
  next_ref :: ref
  source :: string
  root_node :: ref
  title :: "string option"
  node_stack :: "ref list"

text \<open>
  \<open>__init__\<close>: the root is the first object the parser allocates. \<open>next_ref\<close> is the
  next address the allocator hands out.
\<close>

definition init_parser :: "string \<Rightarrow> parser" where
  "init_parser src =
     \<lparr>store = (\<lambda>_. new_DOMNode [] [] [])(0 := new_DOMNode ''DOCUMENT_ROOT'' [] []),
      next_ref = 1, source = src, root_node = 0, title = None, node_stack = [0]\<rparr>"

fun attr_of :: "string option \<Rightarrow> attr_value" where
  "attr_of None = VNone"
| "attr_of (Some v) = VStr v"

text \<open>\<open>for key, value in attrs: dom_attrs[key] = value\<close>, a dictionary in insertion order.\<close>

fun dom_attrs_of :: "(string \<times> string option) list \<Rightarrow> (string \<times> attr_value) list
    \<Rightarrow> (string \<times> attr_value) list" where
  "dom_attrs_of [] dom_attrs = dom_attrs"
| "dom_attrs_of ((key, v) # rest) dom_attrs =
     dom_attrs_of rest (AList.update key (attr_of v) dom_attrs)"

definition handle_starttag ::
    "(string \<rightharpoonup> string set) \<Rightarrow> parser \<Rightarrow> string \<Rightarrow> (string \<times> string option) list
       \<Rightarrow> py_error + parser" where
  "handle_starttag g s tg as =
     (let dom = next_ref s;
          s1 = s\<lparr>store := (store s)(dom := new_DOMNode tg (dom_attrs_of as [] ) []),
                 next_ref := Suc (next_ref s)\<rparr>
      in if node_stack s1 = [] then Inl IndexError
         else
           let s2 = s1\<lparr>store := append_child (store s1) (last (node_stack s1)) (Node dom)\<rparr>
           in (case g ''VOID_TAGS'' of
                 None \<Rightarrow> Inl NameError
               | Some void_tags \<Rightarrow>
                   if tg \<notin> void_tags then Inr (s2\<lparr>node_stack := node_stack s2 @ [dom]\<rparr>)
                   else Inr s2))"

definition handle_endtag :: "parser \<Rightarrow> string \<Rightarrow> py_error + parser" where
  "handle_endtag s tg =
     (if node_stack s = [] then Inl IndexError
      else if tg = tag (store s (last (node_stack s)))
           then Inr (s\<lparr>node_stack := butlast (node_stack s)\<rparr>)
           else Inr s)"

definition handle_data :: "parser \<Rightarrow> string \<Rightarrow> py_error + parser" where
  "handle_data s data =
     (if length (node_stack s) > 0 then
        (let s1 = (if tag (store s (last (node_stack s))) = ''title'' \<and> title s = None
                   then s\<lparr>title := Some data\<rparr> else s)
         in Inr (s1\<lparr>store := append_child (store s1) (last (node_stack s1)) (Text data)\<rparr>))
      else Inr s)"

fun handle :: "(string \<rightharpoonup> string set) \<Rightarrow> parser \<Rightarrow> event \<Rightarrow> py_error + parser" where
  "handle g s (StartTag tg as) = handle_starttag g s tg as"
| "handle g s (EndTag tg) = handle_endtag s tg"
| "handle g s (Data data) = handle_data s data"
| "handle g s (Comment data) = Inr s"
| "handle g s (EntityRef name) = Inr s"
| "handle g s (CharRef name) = Inr s"
| "handle g s (Decl data) = Inr s"

fun feed :: "(string \<rightharpoonup> string set) \<Rightarrow> parser \<Rightarrow> event list \<Rightarrow> py_error + parser" where
  "feed g s [] = Inr s"
| "feed g s (e # es) = (case handle g s e of Inl err \<Rightarrow> Inl err | Inr s' \<Rightarrow> feed g s' es)"

text \<open>
  \<open>accumulate\<close>: \<open>self.node_stack[0]\<close> raises \<open>IndexError\<close> on an empty stack, and the
  comparison is identity, since \<open>DOMNode\<close> defines no \<open>__eq__\<close>.
\<close>

definition accumulate ::
    "(string \<rightharpoonup> string set) \<Rightarrow> (string \<Rightarrow> event list) \<Rightarrow> parser \<Rightarrow> py_error + (parser \<times> ref)" where
  "accumulate g tokenize s =
     (case feed g s (tokenize (source s)) of
        Inl err \<Rightarrow> Inl err
      | Inr s' \<Rightarrow>
          if node_stack s' = [] then Inl IndexError
          else if root_node s' \<noteq> hd (node_stack s') then Inl AssertionError
          else Inr (s', root_node s'))"

text \<open>
  \<open>parse_document\<close>: a \<open>DOMNode\<close> has neither \<open>__bool__\<close> nor \<open>__len__\<close>, so \<open>if root:\<close>
  always holds. The result is the heap the parser built and the document.
\<close>

definition parse_document ::
    "(string \<rightharpoonup> string set) \<Rightarrow> (string \<Rightarrow> event list) \<Rightarrow> string
       \<Rightarrow> py_error + (heap \<times> DOMDocument)" where
  "parse_document g tokenize src =
     (case accumulate g tokenize (init_parser src) of
        Inl err \<Rightarrow> Inl err
      | Inr (s, r) \<Rightarrow> Inr (store s, new_DOMDocument r (title s)))"

subsection \<open>Trees in the heap\<close>

text \<open>
  \<open>is_tree h t\<close>: the objects reachable from the root of \<open>t\<close> through \<open>children\<close> unfold
  to the finite tree \<open>t\<close> of references. \<open>preorder\<close> is document order.
\<close>

datatype rtree = RTree (rt_root: ref) (rt_subs: "rtree list")

fun node_refs :: "child list \<Rightarrow> ref list" where
  "node_refs [] = []"
| "node_refs (Text s # cs) = node_refs cs"
| "node_refs (Node r # cs) = r # node_refs cs"

fun is_tree :: "heap \<Rightarrow> rtree \<Rightarrow> bool" where
  "is_tree h (RTree r ts) =
     (node_refs (children (h r)) = map rt_root ts \<and> (\<forall>t \<in> set ts. is_tree h t))"

fun preorder :: "rtree \<Rightarrow> ref list" where
  "preorder (RTree r ts) = r # concat (map preorder ts)"

fun depth :: "rtree \<Rightarrow> nat" where
  "depth (RTree r ts) = Suc (fold max (map depth ts) 0)"

subsection \<open>The scanner's contract and the builder's invariant\<close>

text \<open>
  \<open>HTMLParser\<close> passes tag names converted to lower case. \<open>lowercased n\<close>: no character
  of \<open>n\<close> is one of the letters A to Z.
\<close>

definition lowercased :: "string \<Rightarrow> bool" where
  "lowercased n = (\<forall>c \<in> set n. \<not> (65 \<le> (of_char c :: nat) \<and> (of_char c :: nat) \<le> 90))"

text \<open>
  The invariant of the open-element stack: it is not empty, its bottom element is the
  synthetic root, the root still carries its tag, and the root is an allocated object.
\<close>

definition stack_inv :: "parser \<Rightarrow> bool" where
  "stack_inv s =
     (node_stack s \<noteq> [] \<and> hd (node_stack s) = root_node s \<and>
      tag (store s (root_node s)) = ''DOCUMENT_ROOT'' \<and> root_node s < next_ref s)"

text \<open>A builder state with a \<open>p\<close> element open below the root, for the examples.\<close>

definition open_p_state :: parser where
  "open_p_state =
     \<lparr>store = (\<lambda>_. new_DOMNode [] [] [])
                 (0 := new_DOMNode ''DOCUMENT_ROOT'' [] [Node 1], 1 := new_DOMNode ''p'' [] []),
      next_ref = 2, source = ''<p>'', root_node = 0, title = None, node_stack = [0, 1]\<rparr>"

subsection \<open>What a traversal adds to an index\<close>


definition id_put :: "(attr_value \<rightharpoonup> ref) \<Rightarrow> DOMNode \<Rightarrow> ref \<Rightarrow> (attr_value \<rightharpoonup> ref)" where
  "id_put m n node =
     (case map_of (attrs n) ''id'' of
        None \<Rightarrow> m
      | Some v \<Rightarrow> if truthy v then m(v \<mapsto> node) else m)"

definition ids_added :: "heap \<Rightarrow> (attr_value \<rightharpoonup> ref) \<Rightarrow> ref list \<Rightarrow> (attr_value \<rightharpoonup> ref)" where
  "ids_added h m rs = foldl (\<lambda>m r. id_put m (h r) r) m rs"

definition hashable_id :: "DOMNode \<Rightarrow> bool" where
  "hashable_id n =
     (case map_of (attrs n) ''id'' of None \<Rightarrow> True | Some v \<Rightarrow> truthy v \<longrightarrow> hashable v)"


subsection \<open>What the queries are to return\<close>


definition last_with_id :: "heap \<Rightarrow> rtree \<Rightarrow> attr_value \<Rightarrow> ref option" where
  "last_with_id h t k =
     (if truthy k then
        (case [r \<leftarrow> preorder t. map_of (attrs (h r)) ''id'' = Some k] of
           [] \<Rightarrow> None
         | r # rs \<Rightarrow> Some (last (r # rs)))
      else None)"



definition with_id_index :: "heap \<Rightarrow> rtree \<Rightarrow> heap" where
  "with_id_index h t =
     h(rt_root t := (h (rt_root t))\<lparr>id_to_node_map := last_with_id h t, has_id_index := True\<rparr>)"


definition doc_with_id_index :: "DOMDocument \<Rightarrow> heap \<Rightarrow> rtree \<Rightarrow> DOMDocument" where
  "doc_with_id_index doc h t =
     doc\<lparr>doc_id_to_node_map := last_with_id h t, doc_has_id_index := True\<rparr>"

subsection \<open>Example heaps\<close>

text \<open>
  The tree of
  \<open><html><head><title>Hi</title></head><body><p id="a" class="x y">Hello</p><br/><p class="x">World</p></body></html>\<close>
  below the synthetic root, a single \<open>p\<close> with \<open>id=""\<close>, and a single \<open>p\<close> with
  \<open>class="x x"\<close>.
\<close>

definition example_heap :: heap where
  "example_heap =
     (\<lambda>_. new_DOMNode [] [] [])
       (0 := new_DOMNode ''DOCUMENT_ROOT'' [] [Node 1],
        1 := new_DOMNode ''html'' [] [Node 2, Node 4],
        2 := new_DOMNode ''head'' [] [Node 3],
        3 := new_DOMNode ''title'' [] [Text ''Hi''],
        4 := new_DOMNode ''body'' [] [Node 5, Node 6, Node 7],
        5 := new_DOMNode ''p'' [(''id'', VStr ''a''), (''class'', VStr ''x y'')] [Text ''Hello''],
        6 := new_DOMNode ''br'' [] [],
        7 := new_DOMNode ''p'' [(''class'', VStr ''x'')] [Text ''World''])"


definition empty_id_heap :: heap where
  "empty_id_heap = (\<lambda>_. new_DOMNode [] [] [])(0 := new_DOMNode ''p'' [(''id'', VStr [])] [])"


definition duplicate_id_heap :: heap where
  "duplicate_id_heap =
     (\<lambda>_. new_DOMNode [] [] [])
       (0 := new_DOMNode ''div'' [] [Node 1, Node 2],
        1 := new_DOMNode ''p'' [(''id'', VStr ''a'')] [],
        2 := new_DOMNode ''span'' [(''id'', VStr ''a'')] [])"

text \<open>
  A \<open>div\<close> with one \<open>p\<close> child, and a second \<open>p\<close> that is not yet in the tree; the tree
  before and after \<open>append_child\<close> of the second \<open>p\<close> to the \<open>div\<close>. A \<open>p\<close> in the tree
  with a whitespace-separated class string (a tab, a line feed and a no-break space),
  and a \<open>p\<close> whose \<open>id\<close> is an object that cannot be hashed.
\<close>

definition growing_heap :: heap where
  "growing_heap =
     (\<lambda>_. new_DOMNode [] [] [])
       (0 := new_DOMNode ''div'' [] [Node 1],
        1 := new_DOMNode ''p'' [(''id'', VStr ''a''), (''class'', VStr ''x'')] [],
        2 := new_DOMNode ''p'' [(''id'', VStr ''b''), (''class'', VStr ''x'')] [])"

definition small_tree :: rtree where
  "small_tree = RTree 0 [RTree 1 []]"

definition grown_tree :: rtree where
  "grown_tree = RTree 0 [RTree 1 [], RTree 2 []]"


definition unhashable_id_heap :: heap where
  "unhashable_id_heap =
     (\<lambda>_. new_DOMNode [] [] [])
       (0 := new_DOMNode ''p'' [(''id'', VOther True False ''{1: 2}'')] [])"

text \<open>
  The text \<open>render\<close> produces for the root parsed from \<open>hi<!--c-->\<close>, and the handler
  calls \<open>HTMLParser\<close> makes for that input and for the rendered text (tag names in lower
  case).
\<close>

definition example_rendered :: string where
  "example_rendered =
     ''<DOCUMENT_ROOT>'' @ [CHR 0x0A] @ ''  hi'' @ [CHR 0x0A] @ ''</DOCUMENT_ROOT>''"

definition example_scanner :: "string \<Rightarrow> event list" where
  "example_scanner src =
     (if src = ''hi<!--c-->'' then [Data ''hi'', Comment ''c'']
      else if src = example_rendered then
        [StartTag ''document_root'' [], Data ([CHR 0x0A] @ ''  hi'' @ [CHR 0x0A]),
         EndTag ''document_root'']
      else [])"

section \<open>Properties of the tree builder\<close>

subsection \<open>The stack invariant\<close>

lemma root_tag_not_lowercased: "\<not> lowercased ''DOCUMENT_ROOT''"
  by (simp add: lowercased_def)

lemma stack_inv_init: "stack_inv (init_parser src)"
  by (simp add: stack_inv_def init_parser_def new_DOMNode_def)

lemma stack_inv_starttag:
  "stack_inv s \<Longrightarrow> handle_starttag g s tg as = Inr s' \<Longrightarrow> stack_inv s'"
  by (auto simp: stack_inv_def handle_starttag_def Let_def append_child_def
           split: option.splits if_splits)

lemma stack_inv_endtag:
  assumes "stack_inv s" "lowercased tg" "handle_endtag s tg = Inr s'"
  shows "stack_inv s'"
proof (cases "tg = tag (store s (last (node_stack s)))")
  case False
  with assms show ?thesis by (auto simp: handle_endtag_def stack_inv_def)
next
  case True
  from assms(1) obtain r rs where st: "node_stack s = r # rs" and r: "r = root_node s"
    by (cases "node_stack s") (auto simp: stack_inv_def)
  have "rs \<noteq> []"
  proof
    assume "rs = []"
    with st r True assms(1) have "tg = ''DOCUMENT_ROOT''" by (simp add: stack_inv_def)
    with assms(2) root_tag_not_lowercased show False by simp
  qed
  with st r True assms show ?thesis
    by (auto simp: handle_endtag_def stack_inv_def)
qed

lemma stack_inv_data: "stack_inv s \<Longrightarrow> handle_data s data = Inr s' \<Longrightarrow> stack_inv s'"
  by (auto simp: stack_inv_def handle_data_def Let_def append_child_def split: if_splits)

lemma stack_inv_handle:
  assumes "stack_inv s" "\<And>n. e = EndTag n \<Longrightarrow> lowercased n" "handle g s e = Inr s'"
  shows "stack_inv s'"
  using assms
  by (cases e) (auto intro: stack_inv_starttag stack_inv_endtag stack_inv_data)

lemma stack_inv_feed:
  "stack_inv s \<Longrightarrow> (\<forall>e \<in> set evs. \<forall>n. e = EndTag n \<longrightarrow> lowercased n) \<Longrightarrow>
     feed g s evs = Inr s' \<Longrightarrow> stack_inv s'"
proof (induction evs arbitrary: s)
  case Nil then show ?case by simp
next
  case (Cons e evs)
  from Cons.prems(3) obtain s1 where h: "handle g s e = Inr s1" and f: "feed g s1 evs = Inr s'"
    by (auto split: sum.splits)
  have "stack_inv s1" using stack_inv_handle[OF Cons.prems(1) _ h] Cons.prems(2) by simp
  from Cons.IH[OF this _ f] Cons.prems(2) show ?case by simp
qed

lemma handle_error_is_NameError:
  assumes "stack_inv s" "handle g s e = Inl err"
  shows "err = NameError"
  using assms
  by (cases e)
     (auto simp: stack_inv_def handle_starttag_def handle_endtag_def handle_data_def Let_def
           split: option.splits if_splits)

lemma feed_error_is_NameError:
  "stack_inv s \<Longrightarrow> (\<forall>e \<in> set evs. \<forall>n. e = EndTag n \<longrightarrow> lowercased n) \<Longrightarrow>
     feed g s evs = Inl err \<Longrightarrow> err = NameError"
proof (induction evs arbitrary: s)
  case Nil then show ?case by simp
next
  case (Cons e evs)
  show ?case
  proof (cases "handle g s e")
    case (Inl err')
    with Cons.prems(3) have "err' = err" by simp
    with handle_error_is_NameError[OF Cons.prems(1) Inl] show ?thesis by simp
  next
    case (Inr s1)
    have "stack_inv s1" using stack_inv_handle[OF Cons.prems(1) _ Inr] Cons.prems(2) by simp
    from Cons.IH[OF this] Cons.prems(2,3) Inr show ?thesis by simp
  qed
qed

text \<open>
  With the namespace of \<open>bowl.py\<close> the name \<open>VOID_TAGS\<close> is unbound (the module binds
  \<open>_VOID_TAGS\<close>), so a run that meets a start tag ends in an exception.
\<close>

lemma handle_starttag_raises:
  "handle_starttag bowl_globals s tg as =
     Inl (if node_stack s = [] then IndexError else NameError)"
  by (simp add: handle_starttag_def bowl_globals_def Let_def)

lemma feed_start_tag_raises:
  "StartTag tg as \<in> set evs \<Longrightarrow> \<exists>err. feed bowl_globals s evs = Inl err"
proof (induction evs arbitrary: s)
  case Nil then show ?case by simp
next
  case (Cons e evs)
  show ?case
  proof (cases "handle bowl_globals s e")
    case (Inl err) then show ?thesis by simp
  next
    case (Inr s1)
    have "e \<noteq> StartTag tg as"
      using Inr by (auto simp: handle_starttag_def bowl_globals_def Let_def split: if_splits)
    with Cons.prems have "StartTag tg as \<in> set evs" by simp
    from Cons.IH[OF this, of s1] Inr show ?thesis by simp
  qed
qed

text \<open>
  A captured title is never overwritten. With the namespace of \<open>bowl.py\<close>, a run that
  returns has met no start tag: nothing was pushed, the stack still holds the root
  alone, and no title was captured.
\<close>

lemma title_kept:
  "title s = Some t \<Longrightarrow> feed g s evs = Inr s' \<Longrightarrow> title s' = Some t"
proof (induction evs arbitrary: s)
  case Nil then show ?case by simp
next
  case (Cons e evs)
  from Cons.prems(2) obtain s1 where h: "handle g s e = Inr s1" and f: "feed g s1 evs = Inr s'"
    by (auto split: sum.splits)
  have "title s1 = Some t" using h Cons.prems(1)
    by (cases e)
       (auto simp: handle_starttag_def handle_endtag_def handle_data_def Let_def
             split: option.splits if_splits)
  from Cons.IH[OF this f] show ?case .
qed

lemma only_root_survives:
  assumes "\<forall>e \<in> set evs. \<forall>n. e = EndTag n \<longrightarrow> lowercased n"
    and "node_stack s = [r]" and "tag (store s r) = ''DOCUMENT_ROOT''" and "title s = None"
    and "feed bowl_globals s evs = Inr s'"
  shows "node_stack s' = [r] \<and> tag (store s' r) = ''DOCUMENT_ROOT'' \<and> title s' = None"
  using assms
proof (induction evs arbitrary: s)
  case Nil then show ?case by simp
next
  case (Cons e evs)
  from Cons.prems(5) obtain s1 where h: "handle bowl_globals s e = Inr s1"
      and f: "feed bowl_globals s1 evs = Inr s'"
    by (auto split: sum.splits)
  have low: "\<And>n. e = EndTag n \<Longrightarrow> n \<noteq> ''DOCUMENT_ROOT''"
    using Cons.prems(1) root_tag_not_lowercased by auto
  have "node_stack s1 = [r] \<and> tag (store s1 r) = ''DOCUMENT_ROOT'' \<and> title s1 = None"
  proof (cases e)
    case (StartTag tg as)
    with h show ?thesis by (simp add: handle_starttag_raises)
  next
    case (EndTag n)
    with h low[OF EndTag] Cons.prems(2,3,4) show ?thesis
      by (auto simp: handle_endtag_def split: if_splits)
  next
    case (Data d)
    with h Cons.prems(2,3,4) show ?thesis
      by (auto simp: handle_data_def append_child_def)
  qed (use h Cons.prems in auto)
  with Cons.IH[OF _ _ _ _ f] Cons.prems(1) show ?case by simp
qed

subsection \<open>Claims about parsing\<close>

text \<open>
  C1. The claim: \<open>parse_document\<close> returns a document for every input and never raises.
  The code: on the input \<open><p>\<close>, scanned as one start tag, \<open>handle_starttag\<close> evaluates
  \<open>tag not in VOID_TAGS\<close>; the module binds only \<open>_VOID_TAGS\<close>, the lookup raises
  \<open>NameError\<close>, and the exception leaves \<open>parse_document\<close>.
\<close>

theorem parse_document_start_tag_NameError:
  "parse_document bowl_globals (\<lambda>_. [StartTag ''p'' []]) ''<p>'' = Inl NameError"
  by (simp add: parse_document_def accumulate_def init_parser_def handle_starttag_def
                bowl_globals_def)

text \<open>
  C2. The claim: an element with a void tag is a childless leaf of the parsed tree. The
  code: on the input \<open><br>\<close> no tree is returned; the void-tag test itself raises
  \<open>NameError\<close>.
\<close>

theorem parse_document_void_tag_NameError:
  "parse_document bowl_globals (\<lambda>_. [StartTag ''br'' []]) ''<br>'' = Inl NameError"
  by (simp add: parse_document_def accumulate_def init_parser_def handle_starttag_def
                bowl_globals_def)

text \<open>
  C5. The claim: the document title is the first text inside the first \<open>title\<close> element.
  The code: on the input \<open><title>Hi</title>\<close> no document is returned; the start tag
  raises \<open>NameError\<close> before the text is seen.
\<close>

theorem parse_document_title_NameError:
  "parse_document bowl_globals
     (\<lambda>_. [StartTag ''title'' [], Data ''Hi'', EndTag ''title'']) ''<title>Hi</title>''
   = Inl NameError"
  by (simp add: parse_document_def accumulate_def init_parser_def handle_starttag_def
                bowl_globals_def)

text \<open>
  C6. In every builder state with an open element, an end tag whose name differs from
  the tag of the stack top returns the state as it was (stack, heap and title), and an
  end tag whose name equals it returns the state with exactly the top element removed
  from the stack and nothing else changed.
\<close>

theorem handle_endtag_frame:
  assumes "node_stack s \<noteq> []"
  shows "(name \<noteq> tag (store s (last (node_stack s))) \<longrightarrow> handle_endtag s name = Inr s) \<and>
         (name = tag (store s (last (node_stack s))) \<longrightarrow>
            handle_endtag s name = Inr (s\<lparr>node_stack := butlast (node_stack s)\<rparr>))"
  using assms by (simp add: handle_endtag_def)

theorem handle_endtag_frame_witness:
  "node_stack open_p_state = [0, 1] \<and>
   handle_endtag open_p_state ''div'' = Inr open_p_state \<and>
   handle_endtag open_p_state ''p'' = Inr (open_p_state\<lparr>node_stack := [0]\<rparr>)"
proof -
  have h: "node_stack open_p_state \<noteq> []" by (simp add: open_p_state_def)
  from handle_endtag_frame[OF h, of "''div''"] handle_endtag_frame[OF h, of "''p''"]
  show ?thesis by (simp add: open_p_state_def new_DOMNode_def)
qed

text \<open>
  C10. When the end-tag names the scanner delivers are lower case, then whatever the
  module namespace binds, after every prefix of the events that the builder survives
  the stack is not empty, its bottom element is the synthetic root, and the root still
  has the tag \<open>DOCUMENT_ROOT\<close>; and \<open>accumulate\<close> raises neither \<open>AssertionError\<close> (the
  final assertion) nor \<open>IndexError\<close> (an empty stack).
\<close>

theorem root_never_popped:
  assumes "\<forall>e \<in> set evs. \<forall>n. e = EndTag n \<longrightarrow> lowercased n"
  shows "(\<forall>k s'. feed g (init_parser src) (take k evs) = Inr s' \<longrightarrow>
            node_stack s' \<noteq> [] \<and> hd (node_stack s') = root_node s' \<and>
            tag (store s' (root_node s')) = ''DOCUMENT_ROOT'') \<and>
         (tokenize src = evs \<longrightarrow>
            accumulate g tokenize (init_parser src) \<noteq> Inl AssertionError \<and>
            accumulate g tokenize (init_parser src) \<noteq> Inl IndexError)"
proof (intro conjI allI impI)
  fix k s' assume f: "feed g (init_parser src) (take k evs) = Inr s'"
  have "\<forall>e \<in> set (take k evs). \<forall>n. e = EndTag n \<longrightarrow> lowercased n"
    using assms by (meson in_set_takeD)
  from stack_inv_feed[OF stack_inv_init this f]
  show "node_stack s' \<noteq> []" "hd (node_stack s') = root_node s'"
       "tag (store s' (root_node s')) = ''DOCUMENT_ROOT''"
    by (simp_all add: stack_inv_def)
next
  assume t: "tokenize src = evs"
  have src: "source (init_parser src) = src" by (simp add: init_parser_def)
  have "accumulate g tokenize (init_parser src) \<noteq> Inl AssertionError \<and>
        accumulate g tokenize (init_parser src) \<noteq> Inl IndexError"
  proof (cases "feed g (init_parser src) evs")
    case (Inl err)
    from feed_error_is_NameError[OF stack_inv_init assms Inl]
    show ?thesis using t Inl src by (simp add: accumulate_def)
  next
    case (Inr s')
    from stack_inv_feed[OF stack_inv_init assms Inr] show ?thesis
      using t Inr src by (simp add: accumulate_def stack_inv_def)
  qed
  then show "accumulate g tokenize (init_parser src) \<noteq> Inl AssertionError"
    and "accumulate g tokenize (init_parser src) \<noteq> Inl IndexError" by simp_all
qed

theorem root_never_popped_witness:
  "lowercased ''p'' \<and>
   feed bowl_globals (init_parser ''a</p>'') (take 2 [Data ''a'', EndTag ''p'', Comment ''c''])
     = Inr ((init_parser ''a</p>'')
              \<lparr>store := append_child (store (init_parser ''a</p>'')) 0 (Text ''a'')\<rparr>) \<and>
   node_stack ((init_parser ''a</p>'')
              \<lparr>store := append_child (store (init_parser ''a</p>'')) 0 (Text ''a'')\<rparr>) = [0] \<and>
   accumulate bowl_globals (\<lambda>_. [Data ''a'', EndTag ''p'', Comment ''c''])
       (init_parser ''a</p>'') \<noteq> Inl AssertionError"
proof -
  have h: "\<forall>e \<in> set [Data ''a'', EndTag ''p'', Comment ''c'']. \<forall>n. e = EndTag n \<longrightarrow> lowercased n"
    by (simp add: lowercased_def)
  from root_never_popped[OF h, of bowl_globals "''a</p>''"
         "\<lambda>_. [Data ''a'', EndTag ''p'', Comment ''c'']"]
  show ?thesis using h
    by (simp add: init_parser_def handle_data_def handle_endtag_def new_DOMNode_def
                  append_child_def)
qed

section \<open>Properties of the indexes\<close>

subsection \<open>The tag index\<close>

lemma depth_sub: "t \<in> set ts \<Longrightarrow> depth t \<le> fold max (map depth ts) n"
proof (induction ts arbitrary: n)
  case Nil then show ?case by simp
next
  case (Cons a ts)
  have ge: "\<And>xs (a::nat). a \<le> fold max xs a"
  proof -
    fix xs and a :: nat
    show "a \<le> fold max xs a"
    proof (induction xs arbitrary: a)
      case Nil then show ?case by simp
    next
      case (Cons x xs)
      have "a \<le> max x a" by simp
      also have "\<dots> \<le> fold max xs (max x a)" by (rule Cons.IH)
      finally show ?case by simp
    qed
  qed
  show ?case
  proof (cases "t = a")
    case True
    have "depth a \<le> max (depth a) n" by simp
    also have "\<dots> \<le> fold max (map depth ts) (max (depth a) n)" by (rule ge)
    finally show ?thesis using True by simp
  next
    case False
    with Cons.prems have "t \<in> set ts" by simp
    from Cons.IH[OF this] show ?thesis by simp
  qed
qed

lemma subtrees_fit:
  assumes "is_tree h (RTree r ts)" "depth (RTree r ts) \<le> Suc d" "t \<in> set ts"
  shows "is_tree h t \<and> depth t \<le> d"
  using assms depth_sub[of t ts 0] by fastforce
















lemma growing_small_tree: "is_tree growing_heap small_tree"
  by (simp add: growing_heap_def small_tree_def new_DOMNode_def)

lemma growing_fields:
  "map (\<lambda>r. tag (growing_heap r)) [0, 1, 2] = [''div'', ''p'', ''p'']"
  "children (growing_heap 0) = [Node 1]" "children (growing_heap 1) = []"
  "children (growing_heap 2) = []"
  by (simp_all add: growing_heap_def new_DOMNode_def)


subsection \<open>The id index\<close>

lemma id_store_hashable: "hashable_id n \<Longrightarrow> id_store m n r = Inr (id_put m n r)"
  by (auto simp: id_store_def id_put_def hashable_id_def split: option.splits)

lemma build_id_tree:
  "is_tree h t \<Longrightarrow> depth t \<le> d \<Longrightarrow> (\<forall>r \<in> set (preorder t). hashable_id (h r)) \<Longrightarrow>
     build_id_index d h self (rt_root t) c =
       Inr (ids_added h (fst c) (preorder t), snd c \<or> self \<in> set (preorder t))"
proof (induction t arbitrary: d c)
  case (RTree r ts)
  from RTree.prems obtain d' where d: "d = Suc d'" by (cases d) auto
  have refs: "node_refs (children (h r)) = map rt_root ts" using RTree.prems by simp
  have sub: "\<And>t. t \<in> set ts \<Longrightarrow> is_tree h t \<and> depth t \<le> d'"
    using subtrees_fit RTree.prems d by blast
  have hs: "\<And>t. t \<in> set ts \<Longrightarrow> \<forall>r \<in> set (preorder t). hashable_id (h r)"
    using RTree.prems(3) by auto
  have kids: "\<And>cs c. node_refs cs = map rt_root ts' \<Longrightarrow> set ts' \<subseteq> set ts \<Longrightarrow>
      build_id_children d' h self cs c =
        Inr (ids_added h (fst c) (concat (map preorder ts')),
             snd c \<or> self \<in> set (concat (map preorder ts')))" for ts'
  proof (induction ts')
    case Nil
    then show ?case
      by (induction cs arbitrary: c rule: node_refs.induct) (auto simp: ids_added_def)
  next
    case (Cons t' ts')
    from Cons.prems show ?case
    proof (induction cs arbitrary: c rule: node_refs.induct)
      case 1 then show ?case by simp
    next
      case (2 s cs) then show ?case by simp
    next
      case (3 r' cs)
      then have r': "r' = rt_root t'" and rest: "node_refs cs = map rt_root ts'" by auto
      have t': "t' \<in> set ts" and ts': "set ts' \<subseteq> set ts" using 3 by auto
      have "build_id_index d' h self (rt_root t') c =
          Inr (ids_added h (fst c) (preorder t'), snd c \<or> self \<in> set (preorder t'))"
        using RTree.IH[OF t'] sub[OF t'] hs[OF t'] by blast
      then show ?case using Cons.IH[OF rest ts'] r'
        by (auto simp: ids_added_def)
    qed
  qed
  have "hashable_id (h r)" using RTree.prems(3) by simp
  then show ?case using kids[OF refs subset_refl] d
    by (auto simp: ids_added_def id_store_hashable)
qed

lemma ids_added_lookup:
  "ids_added h m rs k =
     (if truthy k \<and> [r \<leftarrow> rs. map_of (attrs (h r)) ''id'' = Some k] \<noteq> []
      then Some (last [r \<leftarrow> rs. map_of (attrs (h r)) ''id'' = Some k]) else m k)"
  unfolding ids_added_def
proof (induction rs rule: rev_induct)
  case Nil then show ?case by simp
next
  case (snoc r rs)
  then show ?case
    by (auto simp: id_put_def split: option.splits)
qed

lemma ids_added_is_index: "ids_added h Map.empty (preorder t) = last_with_id h t"
  by (rule ext) (simp add: ids_added_lookup last_with_id_def split: list.splits)

lemma build_id_whole_tree:
  assumes "is_tree h t" and "depth t \<le> d" and "\<forall>r \<in> set (preorder t). hashable_id (h r)"
  shows "build_id_index d h (rt_root t) (rt_root t) (Map.empty, False) =
           Inr (last_with_id h t, True)"
proof -
  have "rt_root t \<in> set (preorder t)" by (cases t) simp
  then show ?thesis
    using build_id_tree[OF assms, of "rt_root t" "(Map.empty, False)"]
    by (simp add: ids_added_is_index del: preorder.simps)
qed

lemma get_by_id_builds:
  assumes "is_tree h t" and "depth t \<le> d" and "\<forall>r \<in> set (preorder t). hashable_id (h r)"
    and "\<not> has_id_index (h (rt_root t))" and "id_to_node_map (h (rt_root t)) = Map.empty"
  shows "get_by_id d h (rt_root t) x = Inr (with_id_index h t, last_with_id h t (VStr x))"
  using build_id_whole_tree[OF assms(1,2,3)] assms(4,5)
  by (simp add: get_by_id_def with_id_index_def)

lemma doc_get_by_id_builds:
  assumes "is_tree h t" and "depth t \<le> d" and "\<forall>r \<in> set (preorder t). hashable_id (h r)"
    and "root doc = rt_root t" and "\<not> doc_has_id_index doc"
    and "doc_id_to_node_map doc = Map.empty"
  shows "doc_get_by_id d h doc x = Inr (doc_with_id_index doc h t, last_with_id h t (VStr x))"
  using build_id_whole_tree[OF assms(1,2,3)] assms(4,5,6)
  by (simp add: doc_get_by_id_def doc_with_id_index_def)

lemma get_by_id_stored:
  "has_id_index (h n) \<Longrightarrow> get_by_id d h n x = Inr (h, id_to_node_map (h n) (VStr x))"
  by (simp add: get_by_id_def)

lemma last_with_id_string:
  assumes "x \<noteq> []"
  shows "last_with_id h t (VStr x) =
           (if [r \<leftarrow> preorder t. map_of (attrs (h r)) ''id'' = Some (VStr x)] = [] then None
            else Some (last [r \<leftarrow> preorder t. map_of (attrs (h r)) ''id'' = Some (VStr x)]))"
  using assms by (simp add: last_with_id_def split: list.splits)

lemma last_with_id_iff:
  assumes "x \<noteq> []"
  shows "(\<exists>r. last_with_id h t (VStr x) = Some r) \<longleftrightarrow>
         (\<exists>r \<in> set (preorder t). map_of (attrs (h r)) ''id'' = Some (VStr x))"
proof -
  have "([r \<leftarrow> preorder t. map_of (attrs (h r)) ''id'' = Some (VStr x)] \<noteq> []) \<longleftrightarrow>
        (\<exists>r \<in> set (preorder t). map_of (attrs (h r)) ''id'' = Some (VStr x))"
    by (simp add: filter_empty_conv)
  then show ?thesis by (auto simp: last_with_id_string[OF assms])
qed

text \<open>
  C4, as amended. Let the scope, a node's subtree or a document's whole tree, be the
  finite tree \<open>t\<close>, no deeper than the call stack allows, with every truthy \<open>id\<close> in it
  hashable. On an owner whose id index has not been built, \<open>get_by_id(x)\<close> stores the
  index of \<open>t\<close> in the owner and returns the last node of \<open>t\<close> in document order whose
  \<open>id\<close> attribute is \<open>x\<close>, and every later \<open>get_by_id\<close> on the owner returns the entry of
  that index, whatever the heap has become. For a non-empty \<open>x\<close> a node is returned if
  and only if some node of \<open>t\<close> has the \<open>id\<close> attribute \<open>x\<close>; for the empty string none
  is.
\<close>

theorem get_by_id_last_match:
  assumes "is_tree h t" and "depth t \<le> d" and "\<forall>r \<in> set (preorder t). hashable_id (h r)"
  shows
    "(\<not> has_id_index (h (rt_root t)) \<and> id_to_node_map (h (rt_root t)) = Map.empty \<longrightarrow>
        get_by_id d h (rt_root t) x = Inr (with_id_index h t, last_with_id h t (VStr x)) \<and>
        (\<forall>h2 d' y. has_id_index (h2 (rt_root t)) \<and>
                    id_to_node_map (h2 (rt_root t)) = last_with_id h t \<longrightarrow>
           get_by_id d' h2 (rt_root t) y = Inr (h2, last_with_id h t (VStr y)))) \<and>
     (root doc = rt_root t \<and> \<not> doc_has_id_index doc \<and> doc_id_to_node_map doc = Map.empty \<longrightarrow>
        doc_get_by_id d h doc x = Inr (doc_with_id_index doc h t, last_with_id h t (VStr x)) \<and>
        (\<forall>h2 d' y. doc_get_by_id d' h2 (doc_with_id_index doc h t) y =
           Inr (doc_with_id_index doc h t, last_with_id h t (VStr y)))) \<and>
     (x \<noteq> [] \<longrightarrow>
        ((\<exists>r. last_with_id h t (VStr x) = Some r) \<longleftrightarrow>
         (\<exists>r \<in> set (preorder t). map_of (attrs (h r)) ''id'' = Some (VStr x))) \<and>
        (\<forall>r. last_with_id h t (VStr x) = Some r \<longrightarrow>
           r = last [r \<leftarrow> preorder t. map_of (attrs (h r)) ''id'' = Some (VStr x)])) \<and>
     last_with_id h t (VStr []) = None"
proof (intro conjI impI allI)
  assume a: "\<not> has_id_index (h (rt_root t)) \<and> id_to_node_map (h (rt_root t)) = Map.empty"
  then show "get_by_id d h (rt_root t) x = Inr (with_id_index h t, last_with_id h t (VStr x))"
    using get_by_id_builds[OF assms] by simp
next
  fix h2 :: heap and d' y
  assume "has_id_index (h2 (rt_root t)) \<and> id_to_node_map (h2 (rt_root t)) = last_with_id h t"
  then show "get_by_id d' h2 (rt_root t) y = Inr (h2, last_with_id h t (VStr y))"
    by (simp add: get_by_id_stored)
next
  assume "root doc = rt_root t \<and> \<not> doc_has_id_index doc \<and> doc_id_to_node_map doc = Map.empty"
  then show "doc_get_by_id d h doc x = Inr (doc_with_id_index doc h t, last_with_id h t (VStr x))"
    using doc_get_by_id_builds[OF assms] by simp
next
  fix h2 :: heap and d' y
  show "doc_get_by_id d' h2 (doc_with_id_index doc h t) y =
           Inr (doc_with_id_index doc h t, last_with_id h t (VStr y))"
    by (simp add: doc_get_by_id_def doc_with_id_index_def)
next
  assume "x \<noteq> []"
  then show "(\<exists>r. last_with_id h t (VStr x) = Some r) \<longleftrightarrow>
         (\<exists>r \<in> set (preorder t). map_of (attrs (h r)) ''id'' = Some (VStr x))"
    by (rule last_with_id_iff)
next
  fix r assume "x \<noteq> []" and "last_with_id h t (VStr x) = Some r"
  then show "r = last [r \<leftarrow> preorder t. map_of (attrs (h r)) ''id'' = Some (VStr x)]"
    by (simp add: last_with_id_string split: if_splits)
next
  show "last_with_id h t (VStr []) = None" by (simp add: last_with_id_def)
qed

lemma duplicate_id_fields:
  "map (\<lambda>r. map_of (attrs (duplicate_id_heap r)) ''id'') [0, 1, 2] =
     [None, Some (VStr ''a''), Some (VStr ''a'')]"
  "children (duplicate_id_heap 0) = [Node 1, Node 2]"
  "children (duplicate_id_heap 1) = []" "children (duplicate_id_heap 2) = []"
  "\<not> has_id_index (duplicate_id_heap 0)" "id_to_node_map (duplicate_id_heap 0) = Map.empty"
  by (simp_all add: duplicate_id_heap_def new_DOMNode_def)

theorem get_by_id_last_match_witness:
  "is_tree duplicate_id_heap grown_tree \<and>
   get_by_id 2 duplicate_id_heap 0 ''a'' = Inr (with_id_index duplicate_id_heap grown_tree, Some 2) \<and>
   get_by_id 0 (with_id_index duplicate_id_heap grown_tree) 0 ''b''
     = Inr (with_id_index duplicate_id_heap grown_tree, None) \<and>
   doc_get_by_id 2 duplicate_id_heap (new_DOMDocument 0 None) ''a''
     = Inr (doc_with_id_index (new_DOMDocument 0 None) duplicate_id_heap grown_tree, Some 2) \<and>
   doc_get_by_id 0 duplicate_id_heap
       (doc_with_id_index (new_DOMDocument 0 None) duplicate_id_heap grown_tree) ''b''
     = Inr (doc_with_id_index (new_DOMDocument 0 None) duplicate_id_heap grown_tree, None)"
proof -
  have r: "rt_root grown_tree = 0" and p: "preorder grown_tree = [0, 1, 2]"
    by (simp_all add: grown_tree_def)
  have t: "is_tree duplicate_id_heap grown_tree"
    using duplicate_id_fields(2-4) by (simp add: grown_tree_def)
  have d: "depth grown_tree \<le> 2" by (simp add: grown_tree_def)
  have hs: "\<forall>r \<in> set (preorder grown_tree). hashable_id (duplicate_id_heap r)"
    using duplicate_id_fields(1) by (simp add: p hashable_id_def)
  have a: "last_with_id duplicate_id_heap grown_tree (VStr ''a'') = Some 2"
    using duplicate_id_fields(1) by (simp add: last_with_id_def p)
  have b: "last_with_id duplicate_id_heap grown_tree (VStr ''b'') = None"
    using duplicate_id_fields(1) by (simp add: last_with_id_def p)
  note inst = get_by_id_last_match[OF t d hs, unfolded r, of "''a''" "new_DOMDocument 0 None"]
  have fresh: "\<not> has_id_index (duplicate_id_heap 0) \<and>
               id_to_node_map (duplicate_id_heap 0) = Map.empty"
    using duplicate_id_fields(5,6) by simp
  have dfresh: "root (new_DOMDocument 0 None) = 0 \<and>
                \<not> doc_has_id_index (new_DOMDocument 0 None) \<and>
                doc_id_to_node_map (new_DOMDocument 0 None) = Map.empty"
    by (simp add: new_DOMDocument_def)
  have built: "has_id_index (with_id_index duplicate_id_heap grown_tree 0) \<and>
               id_to_node_map (with_id_index duplicate_id_heap grown_tree 0)
                 = last_with_id duplicate_id_heap grown_tree"
    by (simp add: with_id_index_def r)
  note node = inst[THEN conjunct1, THEN mp, OF fresh]
  note docu = inst[THEN conjunct2, THEN conjunct1, THEN mp, OF dfresh]
  have A: "get_by_id 2 duplicate_id_heap 0 ''a''
             = Inr (with_id_index duplicate_id_heap grown_tree, Some 2)"
    using node[THEN conjunct1] by (simp add: a)
  have B: "get_by_id 0 (with_id_index duplicate_id_heap grown_tree) 0 ''b''
             = Inr (with_id_index duplicate_id_heap grown_tree, None)"
    using node[THEN conjunct2, THEN spec[where x = "with_id_index duplicate_id_heap grown_tree"],
               THEN spec[where x = 0], THEN spec[where x = "''b''"], THEN mp, OF built]
    by (simp add: b)
  have C: "doc_get_by_id 2 duplicate_id_heap (new_DOMDocument 0 None) ''a''
     = Inr (doc_with_id_index (new_DOMDocument 0 None) duplicate_id_heap grown_tree, Some 2)"
    using docu[THEN conjunct1] by (simp add: a)
  have D: "doc_get_by_id 0 duplicate_id_heap
       (doc_with_id_index (new_DOMDocument 0 None) duplicate_id_heap grown_tree) ''b''
     = Inr (doc_with_id_index (new_DOMDocument 0 None) duplicate_id_heap grown_tree, None)"
    using docu[THEN conjunct2, THEN spec[where x = duplicate_id_heap],
               THEN spec[where x = 0], THEN spec[where x = "''b''"]]
    by (simp add: b)
  from t A B C D show ?thesis by (intro conjI)
qed

lemma growing_ids:
  "map (\<lambda>r. map_of (attrs (growing_heap r)) ''id'') [0, 1, 2] =
     [None, Some (VStr ''a''), Some (VStr ''b'')]"
  "\<not> has_id_index (growing_heap 0)" "id_to_node_map (growing_heap 0) = Map.empty"
  by (simp_all add: growing_heap_def new_DOMNode_def)

text \<open>
  C4 as stated fails in three ways. The test \<open>if id_attr:\<close> skips an empty \<open>id\<close>: a node
  with \<open>id=""\<close> is in scope and \<open>get_by_id("")\<close> returns \<open>None\<close>. The index is built
  once: after \<open>get_by_id("b")\<close> on the \<open>div\<close>, a \<open>p\<close> with \<open>id="b"\<close> is appended to it,
  and \<open>get_by_id("b")\<close> still returns \<open>None\<close>. And an \<open>id\<close> that cannot be hashed makes
  the query raise \<open>TypeError\<close>.
\<close>

theorem get_by_id_empty_string_counterexample:
  "map_of (attrs (empty_id_heap 0)) ''id'' = Some (VStr []) \<and>
   is_tree empty_id_heap (RTree 0 []) \<and>
   get_by_id 1 empty_id_heap 0 [] = Inr (with_id_index empty_id_heap (RTree 0 []), None) \<and>
   get_by_id 2 growing_heap 0 ''b'' = Inr (with_id_index growing_heap small_tree, None) \<and>
   is_tree (append_child (with_id_index growing_heap small_tree) 0 (Node 2)) grown_tree \<and>
   map_of (attrs (append_child (with_id_index growing_heap small_tree) 0 (Node 2) 2)) ''id''
     = Some (VStr ''b'') \<and>
   get_by_id 2 (append_child (with_id_index growing_heap small_tree) 0 (Node 2)) 0 ''b''
     = Inr (append_child (with_id_index growing_heap small_tree) 0 (Node 2), None) \<and>
   get_by_id 1 unhashable_id_heap 0 ''a'' = Inl TypeError"
proof -
  have e1: "map_of (attrs (empty_id_heap 0)) ''id'' = Some (VStr [])"
    by (simp add: empty_id_heap_def new_DOMNode_def)
  have e2: "is_tree empty_id_heap (RTree 0 [])"
    by (simp add: empty_id_heap_def new_DOMNode_def)
  have e3: "get_by_id 1 empty_id_heap 0 [] = Inr (with_id_index empty_id_heap (RTree 0 []), None)"
  proof -
    have hs: "\<forall>r \<in> set (preorder (RTree 0 [])). hashable_id (empty_id_heap r)"
      using e1 by (simp add: hashable_id_def)
    have f: "\<not> has_id_index (empty_id_heap (rt_root (RTree 0 [])))"
      "id_to_node_map (empty_id_heap (rt_root (RTree 0 []))) = Map.empty"
      by (simp_all add: empty_id_heap_def new_DOMNode_def)
    have d: "depth (RTree 0 []) \<le> 1" by simp
    from get_by_id_builds[OF e2 d hs f, of "[]"] show ?thesis
      by (simp add: last_with_id_def)
  qed
  have r: "rt_root small_tree = 0" and p: "preorder small_tree = [0, 1]"
    by (simp_all add: small_tree_def)
  have g1: "get_by_id 2 growing_heap 0 ''b'' = Inr (with_id_index growing_heap small_tree, None)"
  proof -
    have hs: "\<forall>r \<in> set (preorder small_tree). hashable_id (growing_heap r)"
      using growing_ids(1) by (simp add: p hashable_id_def)
    have d: "depth small_tree \<le> 2" by (simp add: small_tree_def)
    have f: "\<not> has_id_index (growing_heap (rt_root small_tree))"
      "id_to_node_map (growing_heap (rt_root small_tree)) = Map.empty"
      using growing_ids(2,3) by (simp_all add: r)
    have b: "last_with_id growing_heap small_tree (VStr ''b'') = None"
      using growing_ids(1) by (simp add: last_with_id_def p)
    from get_by_id_builds[OF growing_small_tree d hs f, of "''b''"] show ?thesis
      by (simp add: r b)
  qed
  have g2: "is_tree (append_child (with_id_index growing_heap small_tree) 0 (Node 2)) grown_tree"
    using growing_fields(2-4)
    by (simp add: grown_tree_def append_child_def with_id_index_def r)
  have g3: "map_of (attrs (append_child (with_id_index growing_heap small_tree) 0 (Node 2) 2)) ''id''
     = Some (VStr ''b'')"
    using growing_ids(1) by (simp add: append_child_def with_id_index_def r)
  have b: "last_with_id growing_heap small_tree (VStr ''b'') = None"
    using growing_ids(1) by (simp add: last_with_id_def p)
  have g4: "get_by_id 2 (append_child (with_id_index growing_heap small_tree) 0 (Node 2)) 0 ''b''
     = Inr (append_child (with_id_index growing_heap small_tree) 0 (Node 2), None)"
    by (simp add: get_by_id_def append_child_def with_id_index_def r b)
  have u: "get_by_id 1 unhashable_id_heap 0 ''a'' = Inl TypeError"
    by (simp add: get_by_id_def unhashable_id_heap_def new_DOMNode_def id_store_def)
  from e1 e2 e3 g1 g2 g3 g4 u show ?thesis by (intro conjI)
qed

subsection \<open>The class index\<close>



lemma split_from_tokens:
  "(\<forall>c \<in> set cur. \<not> py_isspace c) \<Longrightarrow> tok \<in> set (split_from cur s) \<Longrightarrow>
     tok \<noteq> [] \<and> (\<forall>c \<in> set tok. \<not> py_isspace c)"
proof (induction cur s rule: split_from.induct)
  case (1 cur)
  then show ?case by (cases "cur = []") simp_all
next
  case (2 cur c cs)
  note clean = "2.prems"(1) and mem = "2.prems"(2)
  have nil: "\<forall>c \<in> set ([] :: string). \<not> py_isspace c" by simp
  show ?case
  proof (cases "py_isspace c")
    case True
    note sp = True
    show ?thesis
    proof (cases "cur = []")
      case True
      from mem sp True have "tok \<in> set (split_from [] cs)" by simp
      from "2.IH"(1)[OF sp True nil this] show ?thesis .
    next
      case False
      from mem sp False have "tok = cur \<or> tok \<in> set (split_from [] cs)" by simp
      then show ?thesis
      proof
        assume "tok = cur" with False clean show ?thesis by simp
      next
        assume "tok \<in> set (split_from [] cs)"
        from "2.IH"(2)[OF sp False nil this] show ?thesis .
      qed
    qed
  next
    case False
    from False clean have a: "\<forall>c \<in> set (cur @ [c]). \<not> py_isspace c" by simp
    from False mem have b: "tok \<in> set (split_from (cur @ [c]) cs)" by simp
    from "2.IH"(3)[OF False a b] show ?thesis .
  qed
qed

lemma split_from_concat:
  "concat (split_from cur s) = cur @ filter (\<lambda>c. \<not> py_isspace c) s"
  by (induction cur s rule: split_from.induct) auto





















section \<open>The cache\<close>





















section \<open>Rendering and parsing again\<close>

lemma render_example:
  "render list_str 1 example_heap 5 0 =
     Inr (''<p id='' @ [CHR 0x22] @ ''a'' @ [CHR 0x22] @ '' class='' @ [CHR 0x22] @ ''x y'' @ [CHR 0x22] @ ''>''
          @ [CHR 0x0A] @ ''  Hello'' @ [CHR 0x0A] @ ''</p>'')"
  by (simp add: example_heap_def new_DOMNode_def)

lemma example_parse:
  "\<exists>h doc. parse_document bowl_globals example_scanner ''hi<!--c-->'' = Inr (h, doc) \<and>
           render list_str 1 h (root doc) 0 = Inr example_rendered"
  by (simp add: parse_document_def accumulate_def init_parser_def example_scanner_def
                handle_data_def append_child_def new_DOMNode_def new_DOMDocument_def
                example_rendered_def)

lemma example_reparse:
  "parse_document bowl_globals example_scanner example_rendered = Inl NameError"
  by (simp add: parse_document_def accumulate_def init_parser_def example_scanner_def
                handle_starttag_def bowl_globals_def example_rendered_def)

text \<open>
  C9. The claim: rendering a parsed subtree and parsing the text again gives a tree with
  the same tags, attributes and child order. The code: the input \<open>hi<!--c-->\<close> parses to
  the root with one text child; its rendering starts with the tag \<open><DOCUMENT_ROOT>\<close>,
  and parsing that text raises \<open>NameError\<close> at this start tag, so there is no second
  tree.
\<close>

theorem render_reparse_NameError:
  "(\<exists>h doc. parse_document bowl_globals example_scanner ''hi<!--c-->'' = Inr (h, doc) \<and>
            render list_str 1 h (root doc) 0 = Inr example_rendered) \<and>
   parse_document bowl_globals example_scanner example_rendered = Inl NameError"
  using example_parse[of list_str] example_reparse by (rule conjI)

end
